theory Spec2Isabelle
  imports Main
begin

section \<open>Errors, time and configuration data\<close>

text \<open>
  The reverse package (\<open>reverse.New\<close>, \<open>Reverse.Start\<close>) is the third part of
  \<open>src/unnamed/part_000\<close>, and the line numbers given for it are lines of that file;
  \<open>Disk.Collect\<close> is in \<open>internal/builtins/collector/windows/wmi/disk.go\<close>.

  Go \<open>error\<close> values that the two source files create, inspect or pass on.
  \<open>errors.New\<close> and \<open>errors.Wrap\<close> come from \<open>github.com/pkg/errors\<close>;
  \<open>*check.ErrNoOwnerFound\<close> and \<open>*connection.OpError\<close> are the two error types the
  supervisor recognises by type assertion; \<open>collector.ErrTTLNotExpired\<close> and
  \<open>collector.ErrAlreadyRunning\<close> are the sentinel values \<open>Disk.Collect\<close> returns.
  A nil \<open>error\<close> is \<open>None\<close> of \<open>error option\<close>.
\<close>

datatype error =
    ErrNew string
  | ErrWrap error string
  | ErrNoOwnerFound string
  | OpError bool bool string
  | ErrTTLNotExpired
  | ErrAlreadyRunning

text \<open>\<open>errors.Cause\<close>: strips the wrappers added by \<open>errors.Wrap\<close>.\<close>

fun Cause :: "error \<Rightarrow> error" where
  "Cause (ErrWrap e msg) = Cause e"
| "Cause e = e"

text \<open>The type assertion \<open>e.(*check.ErrNoOwnerFound)\<close>, as its \<open>ok\<close> result.\<close>

fun isErrNoOwnerFound :: "error \<Rightarrow> bool" where
  "isErrNoOwnerFound (ErrNoOwnerFound msg) = True"
| "isErrNoOwnerFound e = False"

text \<open>
  \<open>time.Time\<close> and \<open>time.Duration\<close> in nanoseconds. \<open>Time.Sub\<close> saturates at the
  limits of the 64-bit \<open>Duration\<close>; \<open>time.Since t\<close> is \<open>time.Now().Sub(t)\<close>, with the
  clock reading passed in.
\<close>

type_synonym Time = int
type_synonym Duration = int

definition minDuration :: Duration where
  "minDuration = - (2 ^ 63)"

definition maxDuration :: Duration where
  "maxDuration = 2 ^ 63 - 1"

definition time_Sub :: "Time \<Rightarrow> Time \<Rightarrow> Duration" where
  "time_Sub t u = (if t - u > maxDuration then maxDuration
                   else if t - u < minDuration then minDuration
                   else t - u)"

definition time_Since :: "Time \<Rightarrow> Time \<Rightarrow> Duration" where
  "time_Since now t = time_Sub now t"

definition Second :: Duration where
  "Second = 1000000000"

definition Minute :: Duration where
  "Minute = 60 * Second"

text \<open>
  \<open>check.ReverseConfig\<close> (the fields \<open>Start\<close> reads) and \<open>check.ReverseConfigs\<close>, a Go
  map from broker CN to configuration, kept as an association list read with
  \<open>map_of\<close>; a nil \<open>*ReverseConfigs\<close> is \<open>None\<close>.
\<close>

record ReverseConfig =
  BrokerID :: string
  CN :: string
  BrokerAddr :: string
  ReverseURL :: string

type_synonym ReverseConfigs = "(string \<times> ReverseConfig) list"

record Meta =
  BundleID :: string
  CheckID :: string
  CheckUUID :: string

text \<open>
  The \<open>*check.Check\<close> that \<open>reverse.New\<close> receives, as the answers it gives to the two
  calls \<open>New\<close> can make on it.
\<close>

record Check =
  chk_GetReverseConfigs :: "error + ReverseConfigs option"
  chk_CheckMeta :: "error + Meta"

text \<open>The \<open>Reverse\<close> struct; the logger is the list of its context fields.\<close>

record Reverse =
  agentAddress :: string
  configs :: "ReverseConfigs option"
  chk :: Check
  enabled :: bool
  logger :: "(string \<times> string) list"

text \<open>
  What the supervisor does to its collaborators, in order, with the answer each call
  gave: the resolver calls, the construction of a Connection, the run of a Connection
  and the calls of \<open>cancel()\<close> written in the loop body (the deferred one runs at
  every return and is not listed).
\<close>

datatype event =
    EvRefreshReverseConfig "error option"
  | EvGetReverseConfigs "error + ReverseConfigs option"
  | EvCheckMeta "error + Meta"
  | EvFindPrimary "error + string"
  | EvConnNew ReverseConfig "error option"
  | EvConnStart ReverseConfig "error option"
  | EvCancel

section \<open>reverse.New\<close>

text \<open>
  \<open>New parentLogger chk agentAddress\<close>, lines 176-212. The last argument is the value
  of \<open>viper.GetBool(config.KeyReverse)\<close>. The result is the returned pair
  (\<open>Inl\<close> the error, \<open>Inr\<close> the \<open>*Reverse\<close>) and the calls made on the resolver.
\<close>

definition New ::
  "(string \<times> string) list \<Rightarrow> Check option \<Rightarrow> string \<Rightarrow> bool \<Rightarrow> (error + Reverse) \<times> event list"
where
  "New parentLogger chk_arg agentAddress_arg reverse_enabled =
    (case chk_arg of
       None \<Rightarrow> (Inl (ErrNew ''invalid check (nil''), [])
     | Some c \<Rightarrow>
        if agentAddress_arg = [] then (Inl (ErrNew ''invalid agent address (empty)''), [])
        else
          let r = \<lparr> agentAddress = agentAddress_arg, configs = None, chk = c,
                    enabled = reverse_enabled, logger = [] \<rparr>
          in if \<not> enabled r then (Inr r, [])
             else
               (case chk_GetReverseConfigs (chk r) of
                  Inl err \<Rightarrow>
                    (Inl (ErrWrap err ''getting reverse configurations''),
                     [EvGetReverseConfigs (Inl err)])
                | Inr cfgs \<Rightarrow>
                    (case chk_CheckMeta c of
                       Inl err \<Rightarrow>
                         (Inl (ErrWrap err ''setting up reverse''),
                          [EvGetReverseConfigs (Inr cfgs), EvCheckMeta (Inl err)])
                     | Inr cm \<Rightarrow>
                         (Inr (r\<lparr> configs := cfgs,
                                  logger := parentLogger @
                                    [(''pkg'', ''reverse''),
                                     (''bundle_cid'', BundleID cm),
                                     (''check_cid'', CheckID cm),
                                     (''check_uuid'', CheckUUID cm)] \<rparr>),
                          [EvGetReverseConfigs (Inr cfgs), EvCheckMeta (Inr cm)]))))"

section \<open>Reverse.Start: the supervisor loop\<close>

text \<open>
  Everything outside \<open>Start\<close> that it reads or calls. The index is the number of the
  loop iteration (from 0) in which the read or call happens; each is made at most once
  per iteration.
  \<^item> \<open>start_Now\<close>: the clock at line 227;
  \<^item> \<open>ctx_Done i\<close>: whether the caller's context is done when the \<open>select\<close> of
    iteration \<open>i\<close> polls \<open>rctx.Done()\<close>;
  \<^item> \<open>time_Now i\<close>: the clock read by \<open>time.Since\<close> at line 238;
  \<^item> the resolver methods of \<open>r.chk\<close>; \<open>FindPrimaryBrokerInstance\<close> receives
    \<open>r.configs\<close>;
  \<^item> \<open>connection_New i addr cfg\<close>: the error of \<open>connection.New\<close>, \<open>None\<close> when it
    built a Connection;
  \<^item> \<open>rc_Start i cfg\<close>: what \<open>rc.Start(rctx)\<close> returns.
\<close>

record world =
  start_Now :: Time
  ctx_Done :: "nat \<Rightarrow> bool"
  time_Now :: "nat \<Rightarrow> Time"
  RefreshReverseConfig :: "nat \<Rightarrow> error option"
  GetReverseConfigs :: "nat \<Rightarrow> error + ReverseConfigs option"
  FindPrimaryBrokerInstance :: "nat \<Rightarrow> ReverseConfigs option \<Rightarrow> error + string"
  connection_New :: "nat \<Rightarrow> string \<Rightarrow> ReverseConfig \<Rightarrow> error option"
  rc_Start :: "nat \<Rightarrow> ReverseConfig \<Rightarrow> error option"

text \<open>
  The local variables of \<open>Start\<close> that live across iterations; \<open>cancelled\<close> is whether
  \<open>cancel()\<close> of \<open>rctx\<close> has been called.
\<close>

record locals =
  lastRefresh :: Time
  refreshCheck :: bool
  cancelled :: bool

text \<open>
  How \<open>Start\<close> ends: it returns an \<open>error\<close> (nil is \<open>None\<close>), or it panics on the nil
  map pointer at line 270.
\<close>

datatype outcome = Return "error option" | Panic

text \<open>
  Where control goes after a part of the loop body: on to the next statement, back to
  the top of the loop (\<open>continue\<close>), or out of \<open>Start\<close>.
\<close>

datatype flow =
    Next Reverse locals "event list"
  | Continue Reverse locals "event list"
  | Exit outcome Reverse "event list"

fun prepend :: "event list \<Rightarrow> flow \<Rightarrow> flow" where
  "prepend es (Next r st evs) = Next r st (es @ evs)"
| "prepend es (Continue r st evs) = Continue r st (es @ evs)"
| "prepend es (Exit out r evs) = Exit out r (es @ evs)"

fun and_then :: "flow \<Rightarrow> (Reverse \<Rightarrow> locals \<Rightarrow> flow) \<Rightarrow> flow" where
  "and_then (Next r st evs) f = prepend evs (f r st)"
| "and_then (Continue r st evs) f = Continue r st evs"
| "and_then (Exit out r evs) f = Exit out r evs"

text \<open>\<open>rctx\<close> is derived from \<open>ctx\<close>: it is done when \<open>ctx\<close> is, or once cancelled.\<close>

definition rctx_Done :: "world \<Rightarrow> nat \<Rightarrow> locals \<Rightarrow> bool" where
  "rctx_Done w i st = (ctx_Done w i \<or> cancelled st)"

text \<open>Lines 232-236: the \<open>select\<close> at the top of the loop.\<close>

definition Start_select :: "world \<Rightarrow> nat \<Rightarrow> Reverse \<Rightarrow> locals \<Rightarrow> flow" where
  "Start_select w i r st =
     (if rctx_Done w i st then Exit (Return None) r [] else Next r st [])"

text \<open>Lines 238-256: the refresh of the check bundle.\<close>

definition Start_refresh :: "world \<Rightarrow> nat \<Rightarrow> Reverse \<Rightarrow> locals \<Rightarrow> flow" where
  "Start_refresh w i r st =
     (let st1 = (if time_Since (time_Now w i) (lastRefresh st) > 5 * Minute
                 then st\<lparr> refreshCheck := True \<rparr> else st)
      in if refreshCheck st1 then
           (case RefreshReverseConfig w i of
              Some err \<Rightarrow>
                Exit (Return (Some err)) r [EvRefreshReverseConfig (Some err), EvCancel]
            | None \<Rightarrow>
              (case GetReverseConfigs w i of
                 Inl err \<Rightarrow>
                   Exit (Return (Some (ErrWrap err ''getting reverse configurations''))) r
                     [EvRefreshReverseConfig None, EvGetReverseConfigs (Inl err), EvCancel]
               | Inr cfgs \<Rightarrow>
                   Next (r\<lparr> configs := cfgs \<rparr>) (st1\<lparr> refreshCheck := False \<rparr>)
                     [EvRefreshReverseConfig None, EvGetReverseConfigs (Inr cfgs)]))
         else Next r st1 [])"

text \<open>
  Lines 293-307: what the worker goroutine does with the result of \<open>rc.Start(rctx)\<close>;
  the supervisor resumes after it, at \<open>wg.Wait()\<close>. The type assertion at line 297 is
  on \<open>err\<close> itself, not on its cause.
\<close>

definition worker :: "error option \<Rightarrow> locals \<Rightarrow> locals \<times> event list" where
  "worker res st =
     (case res of
        None \<Rightarrow> (st, [])
      | Some err \<Rightarrow>
         (case err of
            OpError fatal refresh msg \<Rightarrow>
              if fatal then (st\<lparr> cancelled := True \<rparr>, [EvCancel])
              else if refresh then (st\<lparr> refreshCheck := True \<rparr>, [])
              else (st, [])
          | _ \<Rightarrow> (st, [])))"

text \<open>Lines 258-309: find the primary broker, look its configuration up, connect.\<close>

definition Start_connect :: "world \<Rightarrow> nat \<Rightarrow> Reverse \<Rightarrow> locals \<Rightarrow> flow" where
  "Start_connect w i r st =
     (case FindPrimaryBrokerInstance w i (configs r) of
        Inl err \<Rightarrow>
          if isErrNoOwnerFound (Cause err)
          then Continue r (st\<lparr> refreshCheck := True \<rparr>) [EvFindPrimary (Inl err)]
          else Exit (Return (Some err)) r [EvFindPrimary (Inl err)]
      | Inr primaryCN \<Rightarrow>
          (case configs r of
             None \<Rightarrow> Exit Panic r [EvFindPrimary (Inr primaryCN)]
           | Some m \<Rightarrow>
              (case map_of m primaryCN of
                 None \<Rightarrow>
                   Continue r (st\<lparr> refreshCheck := True \<rparr>) [EvFindPrimary (Inr primaryCN)]
               | Some cfg \<Rightarrow>
                  (case connection_New w i (agentAddress r) cfg of
                     Some err \<Rightarrow>
                       Exit (Return (Some err)) r
                         [EvFindPrimary (Inr primaryCN), EvConnNew cfg (Some err), EvCancel]
                   | None \<Rightarrow>
                       (let res = rc_Start w i cfg;
                            (st', evs) = worker res st
                        in Next r st'
                             ([EvFindPrimary (Inr primaryCN), EvConnNew cfg None,
                               EvConnStart cfg res] @ evs))))))"

text \<open>One pass through the body of the \<open>for\<close> loop, lines 231-310.\<close>

definition Start_iteration :: "world \<Rightarrow> nat \<Rightarrow> Reverse \<Rightarrow> locals \<Rightarrow> flow" where
  "Start_iteration w i r st =
     and_then (Start_select w i r st) (\<lambda>r1 st1.
     and_then (Start_refresh w i r1 st1) (\<lambda>r2 st2.
     Start_connect w i r2 st2))"

text \<open>
  The \<open>for\<close> loop, which has no exit condition of its own: the first argument bounds
  the number of iterations, and \<open>None\<close> means the loop is still running after that
  many.
\<close>

fun add_events :: "event list \<Rightarrow> outcome \<times> Reverse \<times> event list \<Rightarrow> outcome \<times> Reverse \<times> event list"
where
  "add_events es (out, r, evs) = (out, r, es @ evs)"

fun Start_loop ::
  "nat \<Rightarrow> world \<Rightarrow> nat \<Rightarrow> Reverse \<Rightarrow> locals \<Rightarrow> (outcome \<times> Reverse \<times> event list) option"
where
  "Start_loop 0 w i r st = None"
| "Start_loop (Suc n) w i r st =
     (case Start_iteration w i r st of
        Exit out r' evs \<Rightarrow> Some (out, r', evs)
      | Next r' st' evs \<Rightarrow> map_option (add_events evs) (Start_loop n w (Suc i) r' st')
      | Continue r' st' evs \<Rightarrow> map_option (add_events evs) (Start_loop n w (Suc i) r' st'))"

text \<open>
  \<open>Start\<close>, lines 215-311: the outcome, the \<open>Reverse\<close> as \<open>Start\<close> leaves it and the
  events, in order.
\<close>

definition Start :: "nat \<Rightarrow> world \<Rightarrow> Reverse \<Rightarrow> (outcome \<times> Reverse \<times> event list) option" where
  "Start fuel w r =
     (if \<not> enabled r then Some (Return None, r, [])
      else
        (case configs r of
           None \<Rightarrow> Some (Return (Some (ErrNew ''invalid reverse configurations (nil)'')), r, [])
         | Some m \<Rightarrow>
             if length m = 0
             then Some (Return (Some (ErrNew ''invalid reverse configurations (zero)'')), r, [])
             else Start_loop fuel w 0 r
                    \<lparr> lastRefresh = start_Now w, refreshCheck = False, cancelled = False \<rparr>))"

text \<open>
  The loop after \<open>k\<close> iterations that did not leave it, from iteration \<open>i\<close> on: the
  \<open>Reverse\<close> and the local variables at the top of iteration \<open>i + k\<close> and the events
  so far; \<open>None\<close> when one of these iterations left \<open>Start\<close>.
\<close>

fun add_prefix ::
  "event list \<Rightarrow> Reverse \<times> locals \<times> event list \<Rightarrow> Reverse \<times> locals \<times> event list"
where
  "add_prefix es (r, st, evs) = (r, st, es @ evs)"

fun Start_reach ::
  "nat \<Rightarrow> world \<Rightarrow> nat \<Rightarrow> Reverse \<Rightarrow> locals \<Rightarrow> (Reverse \<times> locals \<times> event list) option"
where
  "Start_reach 0 w i r st = Some (r, st, [])"
| "Start_reach (Suc k) w i r st =
     (case Start_iteration w i r st of
        Exit out r' evs \<Rightarrow> None
      | Next r' st' evs \<Rightarrow> map_option (add_prefix evs) (Start_reach k w (Suc i) r' st')
      | Continue r' st' evs \<Rightarrow> map_option (add_prefix evs) (Start_reach k w (Suc i) r' st'))"

text \<open>The events that show a Connection: its construction and its run.\<close>

fun is_conn_event :: "event \<Rightarrow> bool" where
  "is_conn_event (EvConnNew cfg res) = True"
| "is_conn_event (EvConnStart cfg res) = True"
| "is_conn_event e = False"

section \<open>Disk.Collect\<close>

text \<open>
  The fields of \<open>Disk\<close> and of the \<open>wmicommon\<close> it embeds that \<open>Collect\<close> reads or
  writes.
\<close>

record Disk =
  pkgID :: string
  runTTL :: Duration
  lastEnd :: Time
  lastStart :: Time
  running :: bool
  logical :: bool
  physical :: bool

text \<open>
  What \<open>Collect\<close> does besides reading and writing these fields, in order: it takes and
  releases the mutex of \<open>wmicommon\<close> (\<open>c.Lock()\<close>, \<open>c.Unlock()\<close>), issues the WMI
  queries and calls \<open>setStatus\<close>.
\<close>

datatype wmi_call =
    MuLock
  | MuUnlock
  | QueryLogicalDisk
  | QueryPhysicalDisk
  | CallSetStatus "error option"

text \<open>
  What \<open>Collect\<close> reads and calls: the clock at line 229 (\<open>time.Since\<close>) and at line
  242 (\<open>time.Now\<close>), the answers of the two WMI queries, the two emitters applied to
  each row, and \<open>setStatus\<close> of \<open>wmicommon\<close>, which is declared outside this file and so
  is a parameter. \<open>'m\<close> is \<open>cgm.Metrics\<close>, \<open>'l\<close> and \<open>'p\<close> the two row types.
\<close>

record ('l, 'p, 'm) wmi =
  since_Now :: Time
  start_clock :: Time
  no_metrics :: 'm
  Query_LogicalDisk :: "error + 'l list"
  Query_PhysicalDisk :: "error + 'p list"
  emitLogicalDiskMetrics :: "'m \<Rightarrow> 'l \<Rightarrow> 'm"
  emitPhysicalDiskMetrics :: "'m \<Rightarrow> 'p \<Rightarrow> 'm"
  setStatus :: "'m \<Rightarrow> error option \<Rightarrow> Disk \<Rightarrow> Disk"

text \<open>
  Lines 264-284: the physical disks, then \<open>setStatus\<close> and the nil return. On a
  query error \<open>setStatus\<close> is called first and \<open>c.pkgID\<close> is read after it.
\<close>

definition Collect_physical ::
  "('l, 'p, 'm) wmi \<Rightarrow> Disk \<Rightarrow> 'm \<Rightarrow> wmi_call list \<Rightarrow> error option \<times> Disk \<times> wmi_call list"
where
  "Collect_physical env c metrics calls =
     (if physical c then
        (case Query_PhysicalDisk env of
           Inl err \<Rightarrow>
             (let c' = setStatus env metrics (Some err) c
              in (Some (ErrWrap err (pkgID c')), c',
                  calls @ [QueryPhysicalDisk, CallSetStatus (Some err)]))
         | Inr dst \<Rightarrow>
             (None, setStatus env (foldl (emitPhysicalDiskMetrics env) metrics dst) None c,
              calls @ [QueryPhysicalDisk, CallSetStatus None]))
      else (None, setStatus env metrics None c, calls @ [CallSetStatus None]))"

text \<open>Lines 245-262: the logical disks, with the same order on a query error.\<close>

definition Collect_logical ::
  "('l, 'p, 'm) wmi \<Rightarrow> Disk \<Rightarrow> wmi_call list \<Rightarrow> error option \<times> Disk \<times> wmi_call list"
where
  "Collect_logical env c calls =
     (if logical c then
        (case Query_LogicalDisk env of
           Inl err \<Rightarrow>
             (let c' = setStatus env (no_metrics env) (Some err) c
              in (Some (ErrWrap err (pkgID c')), c',
                  calls @ [QueryLogicalDisk, CallSetStatus (Some err)]))
         | Inr dst \<Rightarrow>
             Collect_physical env c
               (foldl (emitLogicalDiskMetrics env) (no_metrics env) dst)
               (calls @ [QueryLogicalDisk]))
      else Collect_physical env c (no_metrics env) calls)"

text \<open>
  Lines 226-243, what \<open>Collect\<close> does while it holds the mutex, with the clock of line
  229 and the clock of line 242: the error it returns with, or \<open>None\<close> when it goes on
  to collect, and the collector as it leaves it.
\<close>

definition Collect_locked :: "Time \<Rightarrow> Time \<Rightarrow> Disk \<Rightarrow> error option \<times> Disk" where
  "Collect_locked since_now start_now c =
     (if runTTL c > 0 \<and> time_Since since_now (lastEnd c) < runTTL c
      then (Some ErrTTLNotExpired, c)
      else if running c
      then (Some ErrAlreadyRunning, c)
      else (None, c\<lparr> running := True, lastStart := start_now \<rparr>))"

text \<open>
  \<open>Collect\<close>, lines 223-285: the returned error, the collector afterwards and the calls
  made.
\<close>

definition Collect ::
  "('l, 'p, 'm) wmi \<Rightarrow> Disk \<Rightarrow> error option \<times> Disk \<times> wmi_call list"
where
  "Collect env c =
     (case Collect_locked (since_Now env) (start_clock env) c of
        (Some err, c') \<Rightarrow> (Some err, c', [MuLock, MuUnlock])
      | (None, c') \<Rightarrow> Collect_logical env c' [MuLock, MuUnlock])"

subsection \<open>The life of a collector\<close>

text \<open>
  A collection is in flight between line 243, where \<open>Collect\<close> releases the mutex with
  \<open>running\<close> set, and its call of \<open>setStatus\<close>; only a call of \<open>Collect\<close> made by
  another goroutine in that time can find \<open>running\<close> set. So the states a call of
  \<open>Collect\<close> can meet are those reached by these steps, on a clock that never goes
  back (\<open>time.Since\<close> reads the monotonic clock):
  \<^item> \<open>Pass d\<close>: \<open>d\<close> nanoseconds go by;
  \<^item> \<open>Enter d\<close>: a goroutine runs the locked part of \<open>Collect\<close>, lines 226-243, with
    \<open>d\<close> nanoseconds between its two readings of the clock;
  \<^item> \<open>Finish env\<close>: the goroutine whose collection is in flight runs the rest of
    \<open>Collect\<close>, lines 245-285, in the surroundings \<open>env\<close>.
\<close>

record collector_at =
  disk :: Disk
  clock :: Time

datatype ('l, 'p, 'm) life = Pass nat | Enter nat | Finish "('l, 'p, 'm) wmi"

fun life_step :: "('l, 'p, 'm) life \<Rightarrow> collector_at \<Rightarrow> collector_at option" where
  "life_step (Pass d) s = Some (s\<lparr> clock := clock s + int d \<rparr>)"
| "life_step (Enter d) s =
     Some \<lparr> disk = snd (Collect_locked (clock s) (clock s + int d) (disk s)),
            clock = clock s + int d \<rparr>"
| "life_step (Finish env) s =
     (if running (disk s)
      then Some (s\<lparr> disk := fst (snd (Collect_logical env (disk s) [])) \<rparr>)
      else None)"

fun lifetime :: "('l, 'p, 'm) life list \<Rightarrow> collector_at \<Rightarrow> collector_at option" where
  "lifetime [] s = Some s"
| "lifetime (x # xs) s = (case life_step x s of None \<Rightarrow> None | Some s' \<Rightarrow> lifetime xs s')"

text \<open>
  \<open>setStatus\<close> is not in this file. What is asked of it is that it ends the
  collection: the collector it leaves is not \<open>running\<close>.
\<close>

definition ends_collection :: "('l, 'p, 'm) wmi \<Rightarrow> bool" where
  "ends_collection env = (\<forall>m err c. \<not> running (setStatus env m err c))"

fun life_ends :: "('l, 'p, 'm) life \<Rightarrow> bool" where
  "life_ends (Finish env) = ends_collection env"
| "life_ends x = True"

section \<open>The supervisor and its worker goroutines, interleaved\<close>

text \<open>
  \<open>Start_connect\<close> lets the supervisor resume only after the worker goroutine has
  finished. In the source that is the work of the \<open>sync.WaitGroup\<close> of lines 289-309;
  this section models the two kinds of goroutine as they are scheduled, one atomic
  step at a time, so that it can be checked rather than assumed.

  An \<open>attempt\<close> is one pass through lines 283-309: the Connection that
  \<open>connection.New\<close> built, the \<open>WaitGroup\<close> declared for it at line 289 (its counter)
  and the goroutine started for it at line 293, which is \<open>None\<close> before the \<open>go\<close>
  statement and then
  \<^item> \<open>Ready\<close>: started, \<open>rc.Start\<close> not yet called;
  \<^item> \<open>InStart\<close>: inside \<open>rc.Start(rctx)\<close>, the Connection is running;
  \<^item> \<open>AfterStart\<close>: \<open>rc.Start\<close> has returned and its error is handled (lines 296-305);
  \<^item> \<open>Finished\<close>: \<open>wg.Done()\<close> is called, the goroutine is over.
\<close>

datatype gstate = Ready | InStart | AfterStart | Finished

record attempt =
  counter :: nat
  goroutine :: "gstate option"

text \<open>
  Where the supervisor is: at the \<open>select\<close> (line 232), in the body up to
  \<open>connection.New\<close> (lines 238-283), at \<open>wg.Add(1)\<close> (line 291), at the \<open>go\<close>
  statement (line 293), at \<open>wg.Wait()\<close> (line 309), or out of \<open>Start\<close>.
\<close>

datatype pc = AtSelect | AtBody | AtWgAdd | AtGo | AtWait | Returned

record sched =
  main_pc :: pc
  rctx_done :: bool
  crashed :: bool
  attempts :: "attempt list"

text \<open>
  The atomic steps. \<open>CtxCancel\<close> is the caller cancelling \<open>ctx\<close>, possible at any
  moment; the \<open>Main\<close> steps are the supervisor's; \<open>WorkerCall k\<close>, \<open>WorkerReturn k fatal\<close>
  and \<open>WorkerDone k\<close> are the goroutine of attempt \<open>k\<close> calling \<open>rc.Start\<close>, getting
  its result (\<open>fatal\<close>: an \<open>OpError\<close> with \<open>Fatal\<close> set, answered by \<open>cancel()\<close>) and
  calling \<open>wg.Done()\<close>.
\<close>

datatype action =
    CtxCancel
  | MainSelect
  | MainContinue
  | MainReturn
  | MainConnNew
  | MainWgAdd
  | MainGo
  | MainWait
  | WorkerCall nat
  | WorkerReturn nat bool
  | WorkerDone nat

text \<open>The attempt the supervisor is working on: the one it created last.\<close>

definition current :: "sched \<Rightarrow> nat" where
  "current s = length (attempts s) - 1"

text \<open>
  One step; \<open>None\<close> when the step cannot be taken in this state. \<open>MainSelect\<close> returns
  when \<open>rctx\<close> is done and otherwise falls into the body; \<open>MainContinue\<close> is a
  \<open>continue\<close> (lines 264, 274); \<open>MainReturn\<close> is a return from the body (lines 247,
  252, 266, 286), after which the deferred \<open>cancel()\<close> has run; \<open>MainWait\<close> can be
  taken only when the counter is zero, as \<open>wg.Wait()\<close> blocks until then;
  \<open>wg.Done()\<close> on a zero counter panics, which ends the program.
\<close>

fun step :: "action \<Rightarrow> sched \<Rightarrow> sched option" where
  "step CtxCancel s = Some (s\<lparr> rctx_done := True \<rparr>)"
| "step MainSelect s =
     (if main_pc s = AtSelect
      then Some (s\<lparr> main_pc := (if rctx_done s then Returned else AtBody) \<rparr>)
      else None)"
| "step MainContinue s =
     (if main_pc s = AtBody then Some (s\<lparr> main_pc := AtSelect \<rparr>) else None)"
| "step MainReturn s =
     (if main_pc s = AtBody then Some (s\<lparr> main_pc := Returned, rctx_done := True \<rparr>)
      else None)"
| "step MainConnNew s =
     (if main_pc s = AtBody
      then Some (s\<lparr> main_pc := AtWgAdd,
                     attempts := attempts s @ [\<lparr> counter = 0, goroutine = None \<rparr>] \<rparr>)
      else None)"
| "step MainWgAdd s =
     (if main_pc s = AtWgAdd \<and> attempts s \<noteq> []
      then Some (s\<lparr> main_pc := AtGo,
                     attempts := (attempts s)[current s :=
                       (attempts s ! current s)
                         \<lparr> counter := counter (attempts s ! current s) + 1 \<rparr>] \<rparr>)
      else None)"
| "step MainGo s =
     (if main_pc s = AtGo \<and> attempts s \<noteq> []
      then Some (s\<lparr> main_pc := AtWait,
                     attempts := (attempts s)[current s :=
                       (attempts s ! current s)\<lparr> goroutine := Some Ready \<rparr>] \<rparr>)
      else None)"
| "step MainWait s =
     (if main_pc s = AtWait \<and> attempts s \<noteq> [] \<and> counter (attempts s ! current s) = 0
      then Some (s\<lparr> main_pc := AtSelect \<rparr>)
      else None)"
| "step (WorkerCall k) s =
     (if k < length (attempts s) \<and> goroutine (attempts s ! k) = Some Ready
      then Some (s\<lparr> attempts := (attempts s)[k :=
                       (attempts s ! k)\<lparr> goroutine := Some InStart \<rparr>] \<rparr>)
      else None)"
| "step (WorkerReturn k fatal) s =
     (if k < length (attempts s) \<and> goroutine (attempts s ! k) = Some InStart
      then Some (s\<lparr> rctx_done := (rctx_done s \<or> fatal),
                     attempts := (attempts s)[k :=
                       (attempts s ! k)\<lparr> goroutine := Some AfterStart \<rparr>] \<rparr>)
      else None)"
| "step (WorkerDone k) s =
     (if k < length (attempts s) \<and> goroutine (attempts s ! k) = Some AfterStart
      then (if counter (attempts s ! k) = 0 then Some (s\<lparr> crashed := True \<rparr>)
            else Some (s\<lparr> attempts := (attempts s)[k :=
                   (attempts s ! k)\<lparr> counter := counter (attempts s ! k) - 1,
                                      goroutine := Some Finished \<rparr>] \<rparr>))
      else None)"

text \<open>A schedule, step by step; nothing runs after a panic.\<close>

fun run :: "action list \<Rightarrow> sched \<Rightarrow> sched option" where
  "run [] s = Some s"
| "run (a # as) s =
     (if crashed s then None
      else case step a s of None \<Rightarrow> None | Some s' \<Rightarrow> run as s')"

text \<open>
  \<open>Start\<close> as it reaches the loop for the first time; \<open>d\<close> is whether the caller's
  context is done already.
\<close>

definition sched_init :: "bool \<Rightarrow> sched" where
  "sched_init d = \<lparr> main_pc = AtSelect, rctx_done = d, crashed = False, attempts = [] \<rparr>"

text \<open>
  A Connection is in use from its construction until its goroutine is over
  (\<open>unfinished\<close>), and running while the goroutine is inside \<open>rc.Start\<close>.
\<close>

definition unfinished :: "attempt \<Rightarrow> bool" where
  "unfinished a = (goroutine a \<noteq> Some Finished)"

definition in_Start :: "attempt \<Rightarrow> bool" where
  "in_Start a = (goroutine a = Some InStart)"

definition over :: "attempt \<Rightarrow> bool" where
  "over a = (counter a = 0 \<and> goroutine a = Some Finished)"

text \<open>
  The invariant of the schedule: no panic; every attempt but the last is over; and the
  last one is where the supervisor's position says it is.
\<close>

definition sched_inv :: "sched \<Rightarrow> bool" where
  "sched_inv s =
     (\<not> crashed s \<and>
      (\<forall>k. Suc k < length (attempts s) \<longrightarrow> over (attempts s ! k)) \<and>
      (case main_pc s of
         AtWgAdd \<Rightarrow> attempts s \<noteq> [] \<and>
           attempts s ! current s = \<lparr> counter = 0, goroutine = None \<rparr>
       | AtGo \<Rightarrow> attempts s \<noteq> [] \<and>
           attempts s ! current s = \<lparr> counter = 1, goroutine = None \<rparr>
       | AtWait \<Rightarrow> attempts s \<noteq> [] \<and>
           (over (attempts s ! current s) \<or>
            (counter (attempts s ! current s) = 1 \<and>
             goroutine (attempts s ! current s) \<in> {Some Ready, Some InStart, Some AfterStart}))
       | _ \<Rightarrow> (\<forall>k < length (attempts s). over (attempts s ! k))))"

section \<open>Sample inputs\<close>

definition cfg_a :: ReverseConfig where
  "cfg_a = \<lparr> BrokerID = ''/broker/1'', CN = ''a'', BrokerAddr = ''10.0.0.1:43191'',
             ReverseURL = ''mtev_reverse://10.0.0.1:43191/check/x'' \<rparr>"

definition chk_ok :: Check where
  "chk_ok = \<lparr> chk_GetReverseConfigs = Inr (Some [(''a'', cfg_a)]),
              chk_CheckMeta = Inr \<lparr> BundleID = ''/check_bundle/1'', CheckID = ''/check/1'',
                                     CheckUUID = ''u'' \<rparr> \<rparr>"

definition chk_bad :: Check where
  "chk_bad = \<lparr> chk_GetReverseConfigs = Inl (ErrNew ''api''),
               chk_CheckMeta = Inr \<lparr> BundleID = ''/check_bundle/1'', CheckID = ''/check/1'',
                                      CheckUUID = ''u'' \<rparr> \<rparr>"

definition r_ok :: Reverse where
  "r_ok = \<lparr> agentAddress = ''127.0.0.1:2609'', configs = Some [(''a'', cfg_a)],
            chk = chk_ok, enabled = True, logger = [] \<rparr>"

text \<open>
  A quiet world: the caller never cancels, one second passes per iteration, every
  resolver call succeeds, broker \<open>a\<close> owns the check and each connection ends with a
  clean close.
\<close>

definition w_quiet :: world where
  "w_quiet = \<lparr> start_Now = 0,
               ctx_Done = (\<lambda>i. False),
               time_Now = (\<lambda>i. (int i + 1) * Second),
               RefreshReverseConfig = (\<lambda>i. None),
               GetReverseConfigs = (\<lambda>i. Inr (Some [(''a'', cfg_a)])),
               FindPrimaryBrokerInstance = (\<lambda>i cfgs. Inr ''a''),
               connection_New = (\<lambda>i addr cfg. None),
               rc_Start = (\<lambda>i cfg. None) \<rparr>"

definition st_0 :: locals where
  "st_0 = \<lparr> lastRefresh = 0, refreshCheck = False, cancelled = False \<rparr>"

definition disk_0 :: Disk where
  "disk_0 = \<lparr> pkgID = ''builtins.wmi.disk'', runTTL = 10 * Second,
              lastEnd = 100 * Second, lastStart = 99 * Second, running = False,
              logical = True, physical = True \<rparr>"

definition wmi_0 :: "(string, string, string list) wmi" where
  "wmi_0 = \<lparr> since_Now = 105 * Second, start_clock = 105 * Second, no_metrics = [],
             Query_LogicalDisk = Inr [''C:''], Query_PhysicalDisk = Inr [''0 C:''],
             emitLogicalDiskMetrics = (\<lambda>m d. m @ [d]),
             emitPhysicalDiskMetrics = (\<lambda>m d. m @ [d]),
             setStatus = (\<lambda>m err c. c\<lparr> running := False, lastEnd := 130 * Second \<rparr>) \<rparr>"

text \<open>
  A collector at 120 s, the steps that leave a collection in flight at 125 s, and the
  steps that end that collection at 130 s and go on to 135 s.
\<close>

definition at_0 :: collector_at where
  "at_0 = \<lparr> disk = disk_0, clock = 120 * Second \<rparr>"

definition life_running :: "(string, string, string list) life list" where
  "life_running = [Enter 0, Pass 5000000000]"

definition life_ended :: "(string, string, string list) life list" where
  "life_ended = [Enter 0, Pass 10000000000, Finish wmi_0, Pass 5000000000]"

text \<open>As \<open>w_quiet\<close>, but the caller's context is done from the start.\<close>

definition w_done :: world where
  "w_done = w_quiet\<lparr> ctx_Done := (\<lambda>i. True) \<rparr>"

text \<open>As \<open>w_quiet\<close>, but the caller has cancelled by the second iteration.\<close>

definition w_cancel :: world where
  "w_cancel = w_quiet\<lparr> ctx_Done := (\<lambda>i. 1 \<le> i) \<rparr>"

text \<open>As \<open>w_quiet\<close>, but every connection ends with a fatal \<open>OpError\<close>.\<close>

definition w_fatal :: world where
  "w_fatal = w_quiet\<lparr> rc_Start :=
     (\<lambda>i cfg. Some (OpError True False ''tls: bad certificate'')) \<rparr>"

text \<open>
  As \<open>w_quiet\<close>, but the first pass through the loop is 301 seconds after \<open>Start\<close>
  began, the second a second later, and the caller has cancelled by the third.
\<close>

definition w_late :: world where
  "w_late = w_quiet\<lparr> time_Now := (\<lambda>i. (int i + 301) * Second),
                      ctx_Done := (\<lambda>i. 2 \<le> i) \<rparr>"

text \<open>
  As \<open>w_quiet\<close>, but the resolver finds no owner in the first iteration and fails
  otherwise afterwards.
\<close>

definition w_noowner :: world where
  "w_noowner = w_quiet\<lparr> FindPrimaryBrokerInstance :=
      (\<lambda>i cfgs. if i = 0
                 then Inl (ErrWrap (ErrNoOwnerFound ''no owner found'') ''finding primary'')
                 else Inl (ErrNew ''api: 500'')) \<rparr>"

text \<open>
  As \<open>w_quiet\<close>, but the resolver names a broker that is not in the configurations,
  and the caller has cancelled by the second iteration.
\<close>

definition w_missing :: world where
  "w_missing = w_quiet\<lparr> FindPrimaryBrokerInstance := (\<lambda>i cfgs. Inr ''b''),
                         ctx_Done := (\<lambda>i. 1 \<le> i) \<rparr>"

text \<open>The schedule that starts one Connection, and the state it leads to.\<close>

definition acts_running :: "action list" where
  "acts_running = [MainSelect, MainConnNew, MainWgAdd, MainGo, WorkerCall 0]"

definition sched_running :: sched where
  "sched_running = \<lparr> main_pc = AtWait, rctx_done = False, crashed = False,
                      attempts = [\<lparr> counter = 1, goroutine = Some InStart \<rparr>] \<rparr>"

section \<open>Unfolding the sample inputs\<close>

lemmas sample_defs = r_ok_def w_quiet_def st_0_def

lemmas Start_defs = Start_def Start_iteration_def Start_select_def Start_refresh_def
  Start_connect_def worker_def rctx_Done_def

lemmas time_defs = time_Since_def time_Sub_def maxDuration_def minDuration_def Minute_def
  Second_def

section \<open>Properties of reverse.New\<close>

text \<open>
  C9. \<open>New\<close> returns an error exactly when the check is nil, the agent address is
  empty, or reverse is enabled and \<open>GetReverseConfigs\<close> or \<open>CheckMeta\<close> fails. With
  reverse disabled it makes no call on the resolver, and given a check and an address
  it returns the \<open>Reverse\<close> without configurations.
\<close>

theorem New_error_iff:
  "(isl (fst (New pl c a en)) \<longleftrightarrow>
      c = None \<or> a = [] \<or>
      (en \<and> (\<exists>k. c = Some k \<and> (isl (chk_GetReverseConfigs k) \<or> isl (chk_CheckMeta k))))) \<and>
   (\<not> en \<longrightarrow> snd (New pl c a en) = []) \<and>
   (\<not> en \<and> c = Some k' \<and> a \<noteq> [] \<longrightarrow>
      New pl c a en =
        (Inr \<lparr> agentAddress = a, configs = None, chk = k', enabled = False, logger = [] \<rparr>, []))"
  by (auto simp: New_def Let_def split: option.splits sum.splits)

theorem New_error_iff_witness:
  "isl (fst (New [] (Some chk_bad) ''127.0.0.1:2609'' True)) \<and>
   \<not> isl (fst (New [] (Some chk_ok) ''127.0.0.1:2609'' True)) \<and>
   snd (New [] (Some chk_bad) ''127.0.0.1:2609'' False) = [] \<and>
   New [] (Some chk_bad) ''127.0.0.1:2609'' False =
     (Inr \<lparr> agentAddress = ''127.0.0.1:2609'', configs = None, chk = chk_bad,
            enabled = False, logger = [] \<rparr>, [])"
  using New_error_iff [of "[]" "Some chk_bad" "''127.0.0.1:2609''" True]
    New_error_iff [of "[]" "Some chk_ok" "''127.0.0.1:2609''" True]
    New_error_iff [of "[]" "Some chk_bad" "''127.0.0.1:2609''" False chk_bad]
  by (simp add: chk_bad_def chk_ok_def)

section \<open>Properties of Reverse.Start\<close>

lemma prepend_Nil [simp]: "prepend [] f = f"
  by (cases f) simp_all

text \<open>An iteration that gets past the \<open>select\<close> and the refresh goes on to connect.\<close>

lemma Start_iteration_past_refresh:
  "\<not> rctx_Done w i st \<Longrightarrow> Start_refresh w i r st = Next r1 st1 evs \<Longrightarrow>
   Start_iteration w i r st = prepend evs (Start_connect w i r1 st1)"
  by (simp add: Start_iteration_def Start_select_def)

lemma Start_refresh_no_conn_event:
  "Start_refresh w i r st = Next r1 st1 evs \<Longrightarrow> \<not> list_ex is_conn_event evs"
  by (auto simp: Start_refresh_def Let_def split: if_splits option.splits sum.splits)

text \<open>
  The refresh happens exactly when the flag is set or more than five minutes separate
  the clock from \<open>lastRefresh\<close>, and no part of the loop body assigns \<open>lastRefresh\<close>.
\<close>

lemma Start_refresh_when:
  "(\<exists>res. EvRefreshReverseConfig res \<in> set (case Start_refresh w i r st of
        Next r1 st1 evs \<Rightarrow> evs | Continue r1 st1 evs \<Rightarrow> evs | Exit out r1 evs \<Rightarrow> evs)) \<longleftrightarrow>
   refreshCheck st \<or> time_Since (time_Now w i) (lastRefresh st) > 5 * Minute"
  by (auto simp: Start_refresh_def Let_def split: option.splits sum.splits)

lemma Start_iteration_lastRefresh:
  "Start_iteration w i r st = Next r1 st1 evs \<or> Start_iteration w i r st = Continue r1 st1 evs \<Longrightarrow>
   lastRefresh st1 = lastRefresh st"
  by (auto simp: Start_iteration_def Start_select_def Start_refresh_def Start_connect_def
      worker_def Let_def split: if_splits option.splits sum.splits error.splits list.splits)

text \<open>
  C4. With the reverse feature disabled, \<open>Start\<close> returns nil at once, whatever the
  bound on iterations: it makes no resolver call (no refresh, no primary lookup) and
  constructs no Connection, so its list of events is empty, and it leaves the
  \<open>Reverse\<close> as it was.
\<close>

theorem Start_disabled_returns_nil:
  "\<not> enabled r \<Longrightarrow> Start fuel w r = Some (Return None, r, [])"
  by (simp add: Start_def)

theorem Start_disabled_returns_nil_witness:
  "\<not> enabled (r_ok\<lparr> enabled := False \<rparr>) \<and>
   Start 0 w_quiet (r_ok\<lparr> enabled := False \<rparr>) =
     Some (Return None, r_ok\<lparr> enabled := False \<rparr>, [])"
  using Start_disabled_returns_nil [of "r_ok\<lparr> enabled := False \<rparr>" 0 w_quiet]
  by (simp add: r_ok_def)

text \<open>
  C5. With reverse enabled and the configurations nil or empty, \<open>Start\<close> returns an
  error, the one of line 221 or of line 224. It does so for every bound on the
  iterations, zero included, and with no event: the loop is not entered.
\<close>

theorem Start_invalid_configs:
  "enabled r \<Longrightarrow>
   (configs r = None \<longrightarrow>
      Start fuel w r =
        Some (Return (Some (ErrNew ''invalid reverse configurations (nil)'')), r, [])) \<and>
   (configs r = Some [] \<longrightarrow>
      Start fuel w r =
        Some (Return (Some (ErrNew ''invalid reverse configurations (zero)'')), r, []))"
  by (simp add: Start_def)

theorem Start_invalid_configs_witness:
  "enabled (r_ok\<lparr> configs := None \<rparr>) \<and>
   Start 0 w_quiet (r_ok\<lparr> configs := None \<rparr>) =
     Some (Return (Some (ErrNew ''invalid reverse configurations (nil)'')),
           r_ok\<lparr> configs := None \<rparr>, []) \<and>
   Start 0 w_quiet (r_ok\<lparr> configs := Some [] \<rparr>) =
     Some (Return (Some (ErrNew ''invalid reverse configurations (zero)'')),
           r_ok\<lparr> configs := Some [] \<rparr>, [])"
proof -
  have h: "enabled (r_ok\<lparr> configs := None \<rparr>)" by (simp add: r_ok_def)
  have h': "enabled (r_ok\<lparr> configs := Some [] \<rparr>)" by (simp add: r_ok_def)
  show ?thesis
    using h Start_invalid_configs [OF h, of 0 w_quiet]
      Start_invalid_configs [OF h', of 0 w_quiet]
    by simp
qed

text \<open>
  Once \<open>k\<close> iterations have passed without leaving the loop, the loop behaves as the
  loop started at the state they reached.
\<close>

lemma add_events_Nil: "add_events [] = (\<lambda>x. x)"
  by (rule ext) (auto simp: split_paired_all)

lemma add_events_append: "add_events es (add_events fs x) = add_events (es @ fs) x"
  by (cases x) simp

lemma Start_loop_after_reach:
  "Start_reach k w i r st = Some (rk, stk, evs) \<Longrightarrow>
   Start_loop (k + n) w i r st = map_option (add_events evs) (Start_loop n w (i + k) rk stk)"
proof (induction k arbitrary: i r st evs)
  case 0
  then show ?case by (auto simp: add_events_Nil option.map_ident)
next
  case (Suc k)
  show ?case
  proof (cases "Start_iteration w i r st")
    case (Exit out r' es)
    with Suc.prems show ?thesis by simp
  next
    case (Next r' st' es)
    with Suc.prems obtain fs where
      reach: "Start_reach k w (Suc i) r' st' = Some (rk, stk, fs)" and evs: "evs = es @ fs"
      by auto
    show ?thesis
      using Suc.IH [OF reach] Next evs
      by (simp add: option.map_comp comp_def add_events_append)
  next
    case (Continue r' st' es)
    with Suc.prems obtain fs where
      reach: "Start_reach k w (Suc i) r' st' = Some (rk, stk, fs)" and evs: "evs = es @ fs"
      by auto
    show ?thesis
      using Suc.IH [OF reach] Continue evs
      by (simp add: option.map_comp comp_def add_events_append)
  qed
qed

text \<open>
  C3, as the code has it. At the top of every iteration, whatever the state of the
  loop, a context that is done (the caller's, or \<open>rctx\<close> after \<open>cancel()\<close>) makes the
  loop exit with nil and nothing more is called. So an invocation of \<open>Start\<close> that is
  enabled, has configurations, and after any number \<open>k\<close> of iterations finds the
  context done at the top of the next one returns nil, given a bound above \<open>k\<close> on the
  iterations.
\<close>

theorem Start_loop_cancelled:
  "(rctx_Done w i st \<longrightarrow> Start_loop (Suc n) w i r st = Some (Return None, r, [])) \<and>
   (enabled r \<and> configs r = Some m \<and> m \<noteq> [] \<and>
    Start_reach k w 0 r \<lparr> lastRefresh = start_Now w, refreshCheck = False, cancelled = False \<rparr> =
      Some (rk, stk, evs) \<and>
    rctx_Done w k stk \<longrightarrow>
      Start (k + Suc n) w r = Some (Return None, rk, evs))"
proof -
  have top: "\<And>i st r. rctx_Done w i st \<Longrightarrow>
      Start_loop (Suc n) w i r st = Some (Return None, r, [])"
    by (simp add: Start_iteration_def Start_select_def)
  show ?thesis
    using top Start_loop_after_reach [of k w 0 r _ rk stk evs "Suc n"]
    by (auto simp: Start_def simp del: Start_loop.simps)
qed

theorem Start_loop_cancelled_witness:
  "rctx_Done w_quiet 7 (st_0\<lparr> cancelled := True \<rparr>) \<and>
   Start_loop (Suc 0) w_quiet 7 r_ok (st_0\<lparr> cancelled := True \<rparr>) =
     Some (Return None, r_ok, []) \<and>
   Start_reach (Suc 0) w_cancel 0 r_ok st_0 =
     Some (r_ok, st_0, [EvFindPrimary (Inr ''a''), EvConnNew cfg_a None, EvConnStart cfg_a None]) \<and>
   rctx_Done w_cancel (Suc 0) st_0 \<and>
   Start (Suc 0 + Suc 0) w_cancel r_ok =
     Some (Return None, r_ok,
           [EvFindPrimary (Inr ''a''), EvConnNew cfg_a None, EvConnStart cfg_a None])"
proof -
  have a: "rctx_Done w_quiet 7 (st_0\<lparr> cancelled := True \<rparr>)"
    by (simp add: rctx_Done_def st_0_def)
  have b: "Start_reach (Suc 0) w_cancel 0 r_ok st_0 =
      Some (r_ok, st_0, [EvFindPrimary (Inr ''a''), EvConnNew cfg_a None, EvConnStart cfg_a None])"
    by (simp add: Start_iteration_def Start_select_def Start_refresh_def Start_connect_def
        worker_def rctx_Done_def sample_defs w_cancel_def time_defs)
  have c: "rctx_Done w_cancel (Suc 0) st_0"
    by (simp add: rctx_Done_def w_cancel_def)
  have d: "enabled r_ok \<and> configs r_ok = Some [(''a'', cfg_a)] \<and> start_Now w_cancel = 0"
    by (simp add: sample_defs w_cancel_def)
  have e: "st_0 = \<lparr> lastRefresh = 0, refreshCheck = False, cancelled = False \<rparr>"
    by (simp add: st_0_def)
  show ?thesis
    using a b c d e
      Start_loop_cancelled [where w = w_quiet and i = 7
        and st = "st_0\<lparr> cancelled := True \<rparr>" and n = 0 and r = r_ok]
      Start_loop_cancelled [where w = w_cancel and r = r_ok and m = "[(''a'', cfg_a)]"
        and k = "Suc 0" and rk = r_ok and stk = st_0 and n = 0
        and evs = "[EvFindPrimary (Inr ''a''), EvConnNew cfg_a None, EvConnStart cfg_a None]"]
    by (simp del: Start_loop.simps Start_reach.simps)
qed

text \<open>
  C3, as the claim states it, fails: the tests of lines 220-225 come before the loop
  and do not look at the context, so an invocation whose context is done from the
  start, enabled and with nil configurations, returns the error of line 221.
\<close>

theorem Start_cancelled_invalid_configs:
  "ctx_Done w_done 0 \<and>
   Start 1 w_done (r_ok\<lparr> configs := None \<rparr>) =
     Some (Return (Some (ErrNew ''invalid reverse configurations (nil)'')),
           r_ok\<lparr> configs := None \<rparr>, []) \<and>
   map_option fst (Start 1 w_done (r_ok\<lparr> configs := None \<rparr>)) \<noteq> Some (Return None)"
  by (simp add: Start_def r_ok_def w_done_def)

text \<open>
  C6. In an iteration that reaches \<open>FindPrimaryBrokerInstance\<close> and gets an error from
  it: when the cause of the error is an \<open>ErrNoOwnerFound\<close>, the iteration ends in a
  \<open>continue\<close> with \<open>refreshCheck\<close> set and the loop goes on with the next iteration,
  no error returned; every other error is what \<open>Start\<close> returns.
\<close>

theorem Start_FindPrimary_error:
  assumes "\<not> rctx_Done w i st"
    and "Start_refresh w i r st = Next r1 st1 evs"
    and "FindPrimaryBrokerInstance w i (configs r1) = Inl err"
  shows "(isErrNoOwnerFound (Cause err) \<longrightarrow>
            Start_iteration w i r st =
              Continue r1 (st1\<lparr> refreshCheck := True \<rparr>) (evs @ [EvFindPrimary (Inl err)]) \<and>
            Start_loop (Suc n) w i r st =
              map_option (add_events (evs @ [EvFindPrimary (Inl err)]))
                (Start_loop n w (Suc i) r1 (st1\<lparr> refreshCheck := True \<rparr>))) \<and>
         (\<not> isErrNoOwnerFound (Cause err) \<longrightarrow>
            Start_loop (Suc n) w i r st =
              Some (Return (Some err), r1, evs @ [EvFindPrimary (Inl err)]))"
  using Start_iteration_past_refresh [OF assms(1,2)] assms(3)
  by (simp add: Start_connect_def)

theorem Start_FindPrimary_error_witness:
  "\<not> rctx_Done w_noowner 0 st_0 \<and>
   Start_refresh w_noowner 0 r_ok st_0 = Next r_ok st_0 [] \<and>
   isErrNoOwnerFound
     (Cause (ErrWrap (ErrNoOwnerFound ''no owner found'') ''finding primary'')) \<and>
   Start_iteration w_noowner 0 r_ok st_0 =
     Continue r_ok (st_0\<lparr> refreshCheck := True \<rparr>)
       [EvFindPrimary (Inl (ErrWrap (ErrNoOwnerFound ''no owner found'') ''finding primary''))] \<and>
   \<not> isErrNoOwnerFound (Cause (ErrNew ''api: 500'')) \<and>
   Start_loop (Suc 0) w_noowner 1 r_ok (st_0\<lparr> refreshCheck := True \<rparr>) =
     Some (Return (Some (ErrNew ''api: 500'')), r_ok,
           [EvRefreshReverseConfig None, EvGetReverseConfigs (Inr (Some [(''a'', cfg_a)])),
            EvFindPrimary (Inl (ErrNew ''api: 500''))])"
proof -
  have a1: "\<not> rctx_Done w_noowner 0 st_0"
    by (simp add: rctx_Done_def sample_defs w_noowner_def)
  have a2: "Start_refresh w_noowner 0 r_ok st_0 = Next r_ok st_0 []"
    by (simp add: Start_refresh_def sample_defs w_noowner_def time_defs)
  have a3: "FindPrimaryBrokerInstance w_noowner 0 (configs r_ok) =
      Inl (ErrWrap (ErrNoOwnerFound ''no owner found'') ''finding primary'')"
    by (simp add: sample_defs w_noowner_def)
  have b1: "\<not> rctx_Done w_noowner 1 (st_0\<lparr> refreshCheck := True \<rparr>)"
    by (simp add: rctx_Done_def sample_defs w_noowner_def)
  have b2: "Start_refresh w_noowner 1 r_ok (st_0\<lparr> refreshCheck := True \<rparr>) =
      Next r_ok st_0
        [EvRefreshReverseConfig None, EvGetReverseConfigs (Inr (Some [(''a'', cfg_a)]))]"
    by (simp add: Start_refresh_def sample_defs w_noowner_def time_defs)
  have b3: "FindPrimaryBrokerInstance w_noowner 1 (configs r_ok) = Inl (ErrNew ''api: 500'')"
    by (simp add: sample_defs w_noowner_def)
  show ?thesis
    using a1 a2 Start_FindPrimary_error [OF a1 a2 a3, of 0]
      Start_FindPrimary_error [OF b1 b2 b3, of 0]
    by simp
qed

text \<open>
  C7. In an iteration that reaches \<open>FindPrimaryBrokerInstance\<close> and gets from it a CN
  with no entry in the configurations of that moment (those left by the refresh), the
  iteration ends in a \<open>continue\<close> with \<open>refreshCheck\<close> set; none of its events is the
  construction or the run of a Connection, and the loop goes on with the next
  iteration, no error returned.
\<close>

theorem Start_primary_not_in_configs:
  assumes "\<not> rctx_Done w i st"
    and "Start_refresh w i r st = Next r1 st1 evs"
    and "FindPrimaryBrokerInstance w i (configs r1) = Inr cn"
    and "configs r1 = Some m" and "map_of m cn = None"
  shows "Start_iteration w i r st =
           Continue r1 (st1\<lparr> refreshCheck := True \<rparr>) (evs @ [EvFindPrimary (Inr cn)]) \<and>
         \<not> list_ex is_conn_event (evs @ [EvFindPrimary (Inr cn)]) \<and>
         Start_loop (Suc n) w i r st =
           map_option (add_events (evs @ [EvFindPrimary (Inr cn)]))
             (Start_loop n w (Suc i) r1 (st1\<lparr> refreshCheck := True \<rparr>))"
  using Start_iteration_past_refresh [OF assms(1,2)] assms(3-5)
    Start_refresh_no_conn_event [OF assms(2)]
  by (simp add: Start_connect_def)

theorem Start_primary_not_in_configs_witness:
  "\<not> rctx_Done w_missing 0 st_0 \<and>
   Start_refresh w_missing 0 r_ok st_0 = Next r_ok st_0 [] \<and>
   FindPrimaryBrokerInstance w_missing 0 (configs r_ok) = Inr ''b'' \<and>
   configs r_ok = Some [(''a'', cfg_a)] \<and>
   map_of [(''a'', cfg_a)] ''b'' = None \<and>
   Start_iteration w_missing 0 r_ok st_0 =
     Continue r_ok (st_0\<lparr> refreshCheck := True \<rparr>) [EvFindPrimary (Inr ''b'')] \<and>
   Start_loop (Suc (Suc 0)) w_missing 0 r_ok st_0 =
     Some (Return None, r_ok, [EvFindPrimary (Inr ''b'')])"
proof -
  have a1: "\<not> rctx_Done w_missing 0 st_0"
    by (simp add: rctx_Done_def sample_defs w_missing_def)
  have a2: "Start_refresh w_missing 0 r_ok st_0 = Next r_ok st_0 []"
    by (simp add: Start_refresh_def sample_defs w_missing_def time_defs)
  have a3: "FindPrimaryBrokerInstance w_missing 0 (configs r_ok) = Inr ''b''"
    by (simp add: sample_defs w_missing_def)
  have a4: "configs r_ok = Some [(''a'', cfg_a)]"
    by (simp add: sample_defs w_missing_def)
  have a5: "map_of [(''a'', cfg_a)] ''b'' = None"
    by simp
  have nxt: "Start_loop (Suc 0) w_missing (Suc 0) r_ok (st_0\<lparr> refreshCheck := True \<rparr>) =
      Some (Return None, r_ok, [])"
    by (simp add: Start_iteration_def Start_select_def rctx_Done_def w_missing_def)
  show ?thesis
    using a1 a2 a3 a4 a5 nxt Start_primary_not_in_configs [OF a1 a2 a3 a4 a5, of "Suc 0"]
    by simp
qed

text \<open>
  C1, as the code has it. In an iteration whose Connection is started and whose
  \<open>rc.Start\<close> returns an \<open>OpError\<close> with \<open>Fatal\<close> set, the worker calls \<open>cancel()\<close>;
  the loop then exits at the \<open>select\<close> of the next iteration and \<open>Start\<close> returns nil,
  with no further resolver call and no further Connection. The error is logged, not
  returned.
\<close>

theorem Start_fatal_OpError_returns_nil:
  assumes "\<not> rctx_Done w i st"
    and "Start_refresh w i r st = Next r1 st1 evs"
    and "FindPrimaryBrokerInstance w i (configs r1) = Inr cn"
    and "configs r1 = Some m" and "map_of m cn = Some cfg"
    and "connection_New w i (agentAddress r1) cfg = None"
    and "rc_Start w i cfg = Some (OpError True refresh msg)"
  shows "Start_loop (Suc (Suc n)) w i r st =
           Some (Return None, r1,
                 evs @ [EvFindPrimary (Inr cn), EvConnNew cfg None,
                        EvConnStart cfg (Some (OpError True refresh msg)), EvCancel])"
proof -
  have conn: "Start_connect w i r1 st1 =
      Next r1 (st1\<lparr> cancelled := True \<rparr>)
        [EvFindPrimary (Inr cn), EvConnNew cfg None,
         EvConnStart cfg (Some (OpError True refresh msg)), EvCancel]"
    using assms(3-7) by (simp add: Start_connect_def worker_def)
  have it: "Start_iteration w i r st =
      Next r1 (st1\<lparr> cancelled := True \<rparr>)
        (evs @ [EvFindPrimary (Inr cn), EvConnNew cfg None,
                EvConnStart cfg (Some (OpError True refresh msg)), EvCancel])"
    using Start_iteration_past_refresh [OF assms(1,2)] conn by simp
  have nxt: "Start_iteration w (Suc i) r1 (st1\<lparr> cancelled := True \<rparr>) =
      Exit (Return None) r1 []"
    by (simp add: Start_iteration_def Start_select_def rctx_Done_def)
  show ?thesis
    by (simp add: it nxt)
qed

theorem Start_fatal_OpError_returns_nil_witness:
  "\<not> rctx_Done w_fatal 0 st_0 \<and>
   Start_refresh w_fatal 0 r_ok st_0 = Next r_ok st_0 [] \<and>
   FindPrimaryBrokerInstance w_fatal 0 (configs r_ok) = Inr ''a'' \<and>
   configs r_ok = Some [(''a'', cfg_a)] \<and>
   map_of [(''a'', cfg_a)] ''a'' = Some cfg_a \<and>
   connection_New w_fatal 0 (agentAddress r_ok) cfg_a = None \<and>
   rc_Start w_fatal 0 cfg_a = Some (OpError True False ''tls: bad certificate'') \<and>
   Start_loop (Suc (Suc 0)) w_fatal 0 r_ok st_0 =
     Some (Return None, r_ok,
           [EvFindPrimary (Inr ''a''), EvConnNew cfg_a None,
            EvConnStart cfg_a (Some (OpError True False ''tls: bad certificate'')), EvCancel])"
proof -
  have a1: "\<not> rctx_Done w_fatal 0 st_0"
    by (simp add: rctx_Done_def sample_defs w_fatal_def)
  have a2: "Start_refresh w_fatal 0 r_ok st_0 = Next r_ok st_0 []"
    by (simp add: Start_refresh_def sample_defs w_fatal_def time_defs)
  have a3: "FindPrimaryBrokerInstance w_fatal 0 (configs r_ok) = Inr ''a''"
    by (simp add: sample_defs w_fatal_def)
  have a4: "configs r_ok = Some [(''a'', cfg_a)]"
    by (simp add: sample_defs w_fatal_def)
  have a5: "map_of [(''a'', cfg_a)] ''a'' = Some cfg_a"
    by simp
  have a6: "connection_New w_fatal 0 (agentAddress r_ok) cfg_a = None"
    by (simp add: sample_defs w_fatal_def)
  have a7: "rc_Start w_fatal 0 cfg_a = Some (OpError True False ''tls: bad certificate'')"
    by (simp add: sample_defs w_fatal_def)
  show ?thesis
    using a1 a2 a3 a4 a5 a6 a7
      Start_fatal_OpError_returns_nil [OF a1 a2 a3 a4 a5 a6 a7, of 0]
    by simp
qed

text \<open>
  C1, as the claim states it, fails: in the world \<open>w_fatal\<close> the first Connection's
  \<open>Start\<close> returns a fatal \<open>OpError\<close>, and \<open>Start\<close> of the supervisor returns nil, not
  that error.
\<close>

theorem Start_fatal_OpError_not_propagated:
  "rc_Start w_fatal 0 cfg_a = Some (OpError True False ''tls: bad certificate'') \<and>
   Start 5 w_fatal r_ok =
     Some (Return None, r_ok,
           [EvFindPrimary (Inr ''a''), EvConnNew cfg_a None,
            EvConnStart cfg_a (Some (OpError True False ''tls: bad certificate'')), EvCancel]) \<and>
   map_option fst (Start 5 w_fatal r_ok) \<noteq>
     Some (Return (Some (OpError True False ''tls: bad certificate'')))"
  by (simp add: Start_defs sample_defs w_fatal_def time_defs eval_nat_numeral Let_def)

text \<open>
  C2 at a failing input. In the world \<open>w_late\<close>, \<open>Start\<close> begins at time 0, the first
  iteration runs at 301 s and reloads the check bundle; its Connection ends with a
  clean close, so \<open>refreshCheck\<close> is not flagged and the iteration leaves the loop's
  variables as they were, \<open>lastRefresh\<close> still 0. The second iteration runs at 302 s,
  one second after the reload, and reloads again.
\<close>

theorem Start_refreshes_again_after_one_second:
  "Start_iteration w_late 0 r_ok st_0 =
     Next r_ok st_0
       [EvRefreshReverseConfig None, EvGetReverseConfigs (Inr (Some [(''a'', cfg_a)])),
        EvFindPrimary (Inr ''a''), EvConnNew cfg_a None, EvConnStart cfg_a None] \<and>
   time_Now w_late 1 - time_Now w_late 0 = Second \<and>
   Start 3 w_late r_ok =
     Some (Return None, r_ok,
           [EvRefreshReverseConfig None, EvGetReverseConfigs (Inr (Some [(''a'', cfg_a)])),
            EvFindPrimary (Inr ''a''), EvConnNew cfg_a None, EvConnStart cfg_a None,
            EvRefreshReverseConfig None, EvGetReverseConfigs (Inr (Some [(''a'', cfg_a)])),
            EvFindPrimary (Inr ''a''), EvConnNew cfg_a None, EvConnStart cfg_a None])"
  by (simp add: Start_defs sample_defs w_late_def time_defs eval_nat_numeral Let_def)

section \<open>One Connection at a time\<close>

lemma sched_inv_init: "sched_inv (sched_init d)"
  by (simp add: sched_inv_def sched_init_def)

lemma all_over:
  assumes "\<forall>k. Suc k < length xs \<longrightarrow> over (xs ! k)"
    and "xs \<noteq> []" and "over (xs ! (length xs - 1))" and "k < length xs"
  shows "over (xs ! k)"
proof (cases "Suc k < length xs")
  case True
  then show ?thesis using assms(1) by simp
next
  case False
  then have "k = length xs - 1" using assms(4) by simp
  then show ?thesis using assms(3) by simp
qed

text \<open>
  A goroutine that is not over belongs to the last attempt, and the supervisor is
  waiting for it.
\<close>

lemma worker_live:
  assumes "sched_inv s" and "k < length (attempts s)"
    and "goroutine (attempts s ! k) = Some g" and "g \<noteq> Finished"
  shows "k = current s \<and> main_pc s = AtWait \<and> counter (attempts s ! k) = 1"
proof -
  have notover: "\<not> over (attempts s ! k)"
    using assms(3,4) by (simp add: over_def)
  have butlast: "\<forall>j. Suc j < length (attempts s) \<longrightarrow> over (attempts s ! j)"
    using assms(1) by (simp add: sched_inv_def)
  have k: "k = current s"
  proof (rule ccontr)
    assume "k \<noteq> current s"
    then have "Suc k < length (attempts s)" using assms(2) by (simp add: current_def)
    then show False using butlast notover by blast
  qed
  have pc: "main_pc s = AtWait"
    using assms(1,2,3) notover k
    by (cases "main_pc s") (auto simp: sched_inv_def)
  have "counter (attempts s ! k) = 1"
    using assms(1) pc notover k by (auto simp: sched_inv_def)
  then show ?thesis using k pc by simp
qed

lemma sched_inv_worker:
  assumes "sched_inv s" and "main_pc s = AtWait" and "attempts s \<noteq> []"
    and "counter a = 1 \<and> goroutine a \<in> {Some Ready, Some InStart, Some AfterStart} \<or> over a"
  shows "sched_inv (s\<lparr> rctx_done := d, attempts := (attempts s)[current s := a] \<rparr>)"
  using assms by (auto simp: sched_inv_def current_def)

lemma sched_inv_CtxCancel: "sched_inv s \<Longrightarrow> step CtxCancel s = Some s' \<Longrightarrow> sched_inv s'"
  by (cases "main_pc s") (auto simp: sched_inv_def current_def)

lemma sched_inv_MainSelect: "sched_inv s \<Longrightarrow> step MainSelect s = Some s' \<Longrightarrow> sched_inv s'"
  by (auto simp: sched_inv_def split: if_splits)

lemma sched_inv_MainContinue: "sched_inv s \<Longrightarrow> step MainContinue s = Some s' \<Longrightarrow> sched_inv s'"
  by (auto simp: sched_inv_def split: if_splits)

lemma sched_inv_MainReturn: "sched_inv s \<Longrightarrow> step MainReturn s = Some s' \<Longrightarrow> sched_inv s'"
  by (auto simp: sched_inv_def split: if_splits)

lemma sched_inv_MainConnNew: "sched_inv s \<Longrightarrow> step MainConnNew s = Some s' \<Longrightarrow> sched_inv s'"
  by (auto simp: sched_inv_def current_def nth_append split: if_splits)

lemma sched_inv_MainWgAdd: "sched_inv s \<Longrightarrow> step MainWgAdd s = Some s' \<Longrightarrow> sched_inv s'"
  by (auto simp: sched_inv_def current_def split: if_splits)

lemma sched_inv_MainGo: "sched_inv s \<Longrightarrow> step MainGo s = Some s' \<Longrightarrow> sched_inv s'"
  by (auto simp: sched_inv_def current_def split: if_splits)

lemma sched_inv_MainWait:
  assumes "sched_inv s" and "step MainWait s = Some s'"
  shows "sched_inv s'"
proof -
  from assms(2) have pc: "main_pc s = AtWait" and ne: "attempts s \<noteq> []"
    and zero: "counter (attempts s ! current s) = 0"
    and s': "s' = s\<lparr> main_pc := AtSelect \<rparr>"
    by (auto split: if_splits)
  have butlast: "\<forall>k. Suc k < length (attempts s) \<longrightarrow> over (attempts s ! k)"
    and nc: "\<not> crashed s"
    using assms(1) by (simp_all add: sched_inv_def)
  have "over (attempts s ! current s)"
    using assms(1) pc zero by (auto simp: sched_inv_def)
  then have "over (attempts s ! (length (attempts s) - 1))"
    by (simp add: current_def)
  then have "\<forall>k < length (attempts s). over (attempts s ! k)"
    using all_over [OF butlast ne] by blast
  then show ?thesis
    using s' nc butlast by (simp add: sched_inv_def)
qed

lemma sched_inv_WorkerCall:
  assumes "sched_inv s" and "step (WorkerCall k) s = Some s'"
  shows "sched_inv s'"
proof -
  from assms(2) have k: "k < length (attempts s)"
    and g: "goroutine (attempts s ! k) = Some Ready"
    and s': "s' = s\<lparr> attempts := (attempts s)[k :=
                       (attempts s ! k)\<lparr> goroutine := Some InStart \<rparr>] \<rparr>"
    by (auto split: if_splits)
  from worker_live [OF assms(1) k g] have cur: "k = current s" and pc: "main_pc s = AtWait"
    and c: "counter (attempts s ! k) = 1" by blast+
  have ne: "attempts s \<noteq> []" using k by auto
  show ?thesis
    using sched_inv_worker [OF assms(1) pc ne,
        of "(attempts s ! k)\<lparr> goroutine := Some InStart \<rparr>" "rctx_done s"]
      c cur s' by simp
qed

lemma sched_inv_WorkerReturn:
  assumes "sched_inv s" and "step (WorkerReturn k fatal) s = Some s'"
  shows "sched_inv s'"
proof -
  from assms(2) have k: "k < length (attempts s)"
    and g: "goroutine (attempts s ! k) = Some InStart"
    and s': "s' = s\<lparr> rctx_done := (rctx_done s \<or> fatal),
                      attempts := (attempts s)[k :=
                        (attempts s ! k)\<lparr> goroutine := Some AfterStart \<rparr>] \<rparr>"
    by (auto split: if_splits)
  from worker_live [OF assms(1) k g] have cur: "k = current s" and pc: "main_pc s = AtWait"
    and c: "counter (attempts s ! k) = 1" by blast+
  have ne: "attempts s \<noteq> []" using k by auto
  show ?thesis
    using sched_inv_worker [OF assms(1) pc ne,
        of "(attempts s ! k)\<lparr> goroutine := Some AfterStart \<rparr>" "rctx_done s \<or> fatal"]
      c cur s' by simp
qed

lemma sched_inv_WorkerDone:
  assumes "sched_inv s" and "step (WorkerDone k) s = Some s'"
  shows "sched_inv s'"
proof -
  from assms(2) have k: "k < length (attempts s)"
    and g: "goroutine (attempts s ! k) = Some AfterStart"
    by (auto split: if_splits)
  from worker_live [OF assms(1) k g] have cur: "k = current s" and pc: "main_pc s = AtWait"
    and c: "counter (attempts s ! k) = 1" by blast+
  have ne: "attempts s \<noteq> []" using k by auto
  have s': "s' = s\<lparr> attempts := (attempts s)[k :=
                   (attempts s ! k)\<lparr> counter := counter (attempts s ! k) - 1,
                                      goroutine := Some Finished \<rparr>] \<rparr>"
    using assms(2) k g c by simp
  show ?thesis
    using sched_inv_worker [OF assms(1) pc ne,
        of "(attempts s ! k)\<lparr> counter := counter (attempts s ! k) - 1,
                               goroutine := Some Finished \<rparr>" "rctx_done s"]
      c cur s' by (simp add: over_def)
qed

lemma sched_inv_step:
  assumes "sched_inv s" and "step a s = Some s'"
  shows "sched_inv s'"
  using assms
  by (cases a)
    (blast intro: sched_inv_CtxCancel sched_inv_MainSelect sched_inv_MainContinue
       sched_inv_MainReturn sched_inv_MainConnNew sched_inv_MainWgAdd sched_inv_MainGo
       sched_inv_MainWait sched_inv_WorkerCall sched_inv_WorkerReturn sched_inv_WorkerDone)+

lemma sched_inv_run:
  "sched_inv s \<Longrightarrow> run as s = Some s' \<Longrightarrow> sched_inv s'"
proof (induction as arbitrary: s)
  case Nil
  then show ?case by simp
next
  case (Cons a as)
  then show ?case
    by (auto split: if_splits option.splits dest: sched_inv_step)
qed

lemma at_most_one:
  assumes "\<forall>k. Suc k < length xs \<longrightarrow> \<not> P (xs ! k)"
  shows "length (filter P xs) \<le> 1"
proof (cases xs rule: rev_cases)
  case Nil
  then show ?thesis by simp
next
  case (snoc ys y)
  have "\<forall>x \<in> set ys. \<not> P x"
  proof
    fix x assume "x \<in> set ys"
    then obtain k where "k < length ys" and "ys ! k = x" by (auto simp: in_set_conv_nth)
    then show "\<not> P x" using assms snoc by (auto simp: nth_append)
  qed
  then have "filter P ys = []" by (simp add: filter_empty_conv)
  then show ?thesis using snoc by simp
qed

text \<open>
  C8. In every state that a schedule of the supervisor, its worker goroutines and the
  caller's cancellation can reach from the start of the loop: at most one Connection
  is in use (constructed, its goroutine not over), so at most one is inside
  \<open>rc.Start\<close>; while the supervisor is in the part of the body that constructs a
  Connection, none is in use, every earlier goroutine being over; and no
  \<open>wg.Done()\<close> has panicked.
\<close>

theorem one_connection_at_a_time:
  assumes "run as (sched_init d) = Some s"
  shows "length (filter unfinished (attempts s)) \<le> 1 \<and>
         length (filter in_Start (attempts s)) \<le> 1 \<and>
         (main_pc s = AtBody \<longrightarrow> filter unfinished (attempts s) = []) \<and>
         \<not> crashed s"
proof -
  have inv: "sched_inv s"
    using sched_inv_run [OF sched_inv_init assms] .
  have butlast: "\<forall>k. Suc k < length (attempts s) \<longrightarrow> over (attempts s ! k)"
    using inv by (simp add: sched_inv_def)
  have u: "length (filter unfinished (attempts s)) \<le> 1"
    using butlast by (intro at_most_one) (auto simp: over_def unfinished_def)
  have a: "length (filter in_Start (attempts s)) \<le> 1"
    using butlast by (intro at_most_one) (auto simp: over_def in_Start_def)
  have b: "main_pc s = AtBody \<longrightarrow> filter unfinished (attempts s) = []"
    using inv
    by (auto simp: sched_inv_def filter_empty_conv in_set_conv_nth over_def unfinished_def)
  show ?thesis using u a b inv by (simp add: sched_inv_def)
qed

theorem one_connection_at_a_time_witness:
  "run acts_running (sched_init False) = Some sched_running \<and>
   length (filter in_Start (attempts sched_running)) = 1 \<and>
   length (filter unfinished (attempts sched_running)) \<le> 1 \<and>
   \<not> crashed sched_running"
proof -
  have r: "run acts_running (sched_init False) = Some sched_running"
    by (simp add: acts_running_def sched_init_def sched_running_def current_def)
  show ?thesis
    using r one_connection_at_a_time [OF r]
    by (simp add: sched_running_def in_Start_def)
qed

section \<open>Properties of Disk.Collect\<close>

text \<open>The two early returns of \<open>Collect\<close>, on any collector.\<close>

lemma Collect_early_returns:
  "(0 < runTTL c \<and> time_Since (since_Now env) (lastEnd c) < runTTL c \<longrightarrow>
      Collect env c = (Some ErrTTLNotExpired, c, [MuLock, MuUnlock])) \<and>
   (\<not> (0 < runTTL c \<and> time_Since (since_Now env) (lastEnd c) < runTTL c) \<and> running c \<longrightarrow>
      Collect env c = (Some ErrAlreadyRunning, c, [MuLock, MuUnlock]))"
  by (simp add: Collect_def Collect_locked_def)

lemma time_Since_mono: "t \<le> t' \<Longrightarrow> time_Since t u \<le> time_Since t' u"
  by (simp add: time_Since_def time_Sub_def maxDuration_def minDuration_def)

lemma Collect_locked_keeps:
  "runTTL (snd (Collect_locked a b c)) = runTTL c \<and>
   lastEnd (snd (Collect_locked a b c)) = lastEnd c"
  by (simp add: Collect_locked_def)

lemma Collect_locked_running:
  "running (snd (Collect_locked a b c)) \<Longrightarrow>
   running c \<or> \<not> (0 < runTTL c \<and> time_Since a (lastEnd c) < runTTL c)"
  by (simp add: Collect_locked_def split: if_splits)

lemma Collect_logical_ends:
  "ends_collection env \<Longrightarrow> \<not> running (fst (snd (Collect_logical env c calls)))"
  by (simp add: ends_collection_def Collect_logical_def Collect_physical_def Let_def
      split: sum.splits)

text \<open>
  While a collection is in flight the TTL has expired: it had when the collection
  began, and neither \<open>lastEnd\<close> nor \<open>runTTL\<close> has changed since.
\<close>

definition in_flight_past_TTL :: "collector_at \<Rightarrow> bool" where
  "in_flight_past_TTL s =
     (running (disk s) \<longrightarrow>
        \<not> (0 < runTTL (disk s) \<and>
           time_Since (clock s) (lastEnd (disk s)) < runTTL (disk s)))"

lemma in_flight_past_TTL_step:
  assumes "in_flight_past_TTL s" and "life_ends x" and "life_step x s = Some s'"
  shows "in_flight_past_TTL s'"
proof (cases x)
  case (Pass d)
  have "time_Since (clock s) (lastEnd (disk s)) \<le> time_Since (clock s + int d) (lastEnd (disk s))"
    by (rule time_Since_mono) simp
  then show ?thesis
    using assms Pass by (auto simp: in_flight_past_TTL_def)
next
  case (Enter d)
  have "time_Since (clock s) (lastEnd (disk s)) \<le> time_Since (clock s + int d) (lastEnd (disk s))"
    by (rule time_Since_mono) simp
  then show ?thesis
    using assms Enter Collect_locked_keeps [of "clock s" "clock s + int d" "disk s"]
      Collect_locked_running [of "clock s" "clock s + int d" "disk s"]
    by (auto simp: in_flight_past_TTL_def)
next
  case (Finish env)
  then show ?thesis
    using assms Collect_logical_ends [of env "disk s" "[]"]
    by (auto simp: in_flight_past_TTL_def split: if_splits)
qed

lemma in_flight_past_TTL_lifetime:
  "in_flight_past_TTL s \<Longrightarrow> list_all life_ends xs \<Longrightarrow> lifetime xs s = Some s' \<Longrightarrow>
   in_flight_past_TTL s'"
proof (induction xs arbitrary: s)
  case Nil
  then show ?case by simp
next
  case (Cons x xs)
  then show ?case
    by (auto split: option.splits dest: in_flight_past_TTL_step)
qed

text \<open>
  C10. Take a collector that starts out not running and lives through any calls of
  \<open>Collect\<close> and any passing of time, every \<open>setStatus\<close> ending its collection; call
  \<open>Collect\<close> on it now or later. When a positive \<open>runTTL\<close> is configured and less than
  \<open>runTTL\<close> has passed since \<open>lastEnd\<close>, the call returns \<open>ErrTTLNotExpired\<close>; when a
  collection is in flight, it returns \<open>ErrAlreadyRunning\<close>. In both cases it only takes
  and releases the mutex: it issues no query, does not call \<open>setStatus\<close> and leaves
  the collector as it was.
\<close>

theorem Collect_guards:
  assumes "\<not> running c0"
    and "list_all life_ends xs"
    and "lifetime xs \<lparr> disk = c0, clock = t0 \<rparr> = Some s"
    and "clock s \<le> since_Now env"
  shows "(0 < runTTL (disk s) \<and>
          time_Since (since_Now env) (lastEnd (disk s)) < runTTL (disk s) \<longrightarrow>
            Collect env (disk s) = (Some ErrTTLNotExpired, disk s, [MuLock, MuUnlock])) \<and>
         (running (disk s) \<longrightarrow>
            Collect env (disk s) = (Some ErrAlreadyRunning, disk s, [MuLock, MuUnlock]))"
proof -
  have "in_flight_past_TTL \<lparr> disk = c0, clock = t0 \<rparr>"
    using assms(1) by (simp add: in_flight_past_TTL_def)
  then have inv: "in_flight_past_TTL s"
    using assms(2,3) by (rule in_flight_past_TTL_lifetime)
  have mono: "time_Since (clock s) (lastEnd (disk s)) \<le>
      time_Since (since_Now env) (lastEnd (disk s))"
    using assms(4) by (rule time_Since_mono)
  have "running (disk s) \<longrightarrow>
      \<not> (0 < runTTL (disk s) \<and>
         time_Since (since_Now env) (lastEnd (disk s)) < runTTL (disk s))"
    using inv mono by (auto simp: in_flight_past_TTL_def)
  then show ?thesis
    using Collect_early_returns [of "disk s" env] by blast
qed

theorem Collect_guards_witness:
  "\<not> running disk_0 \<and>
   lifetime life_running at_0 =
     Some \<lparr> disk = disk_0\<lparr> running := True, lastStart := 120 * Second \<rparr>,
            clock = 125 * Second \<rparr> \<and>
   Collect (wmi_0\<lparr> since_Now := 125 * Second \<rparr>)
       (disk_0\<lparr> running := True, lastStart := 120 * Second \<rparr>) =
     (Some ErrAlreadyRunning, disk_0\<lparr> running := True, lastStart := 120 * Second \<rparr>,
      [MuLock, MuUnlock]) \<and>
   lifetime life_ended at_0 =
     Some \<lparr> disk = disk_0\<lparr> lastStart := 120 * Second, lastEnd := 130 * Second \<rparr>,
            clock = 135 * Second \<rparr> \<and>
   Collect (wmi_0\<lparr> since_Now := 135 * Second \<rparr>)
       (disk_0\<lparr> lastStart := 120 * Second, lastEnd := 130 * Second \<rparr>) =
     (Some ErrTTLNotExpired, disk_0\<lparr> lastStart := 120 * Second, lastEnd := 130 * Second \<rparr>,
      [MuLock, MuUnlock])"
proof -
  have c0: "\<not> running disk_0"
    by (simp add: disk_0_def)
  have e1: "list_all life_ends life_running"
    by (simp add: life_running_def)
  have e2: "list_all life_ends life_ended"
    by (simp add: life_ended_def ends_collection_def wmi_0_def)
  have r1: "lifetime life_running \<lparr> disk = disk_0, clock = 120 * Second \<rparr> =
      Some \<lparr> disk = disk_0\<lparr> running := True, lastStart := 120 * Second \<rparr>,
             clock = 125 * Second \<rparr>"
    by (simp add: life_running_def Collect_locked_def disk_0_def time_defs)
  have r2: "lifetime life_ended \<lparr> disk = disk_0, clock = 120 * Second \<rparr> =
      Some \<lparr> disk = disk_0\<lparr> lastStart := 120 * Second, lastEnd := 130 * Second \<rparr>,
             clock = 135 * Second \<rparr>"
    by (simp add: life_ended_def Collect_locked_def Collect_logical_def Collect_physical_def
        disk_0_def wmi_0_def time_defs)
  have l1: "clock \<lparr> disk = disk_0\<lparr> running := True, lastStart := 120 * Second \<rparr>,
                    clock = 125 * Second \<rparr> \<le> since_Now (wmi_0\<lparr> since_Now := 125 * Second \<rparr>)"
    by simp
  have l2: "clock \<lparr> disk = disk_0\<lparr> lastStart := 120 * Second, lastEnd := 130 * Second \<rparr>,
                    clock = 135 * Second \<rparr> \<le> since_Now (wmi_0\<lparr> since_Now := 135 * Second \<rparr>)"
    by simp
  show ?thesis
    using c0 r1 r2 Collect_guards [OF c0 e1 r1 l1] Collect_guards [OF c0 e2 r2 l2]
    by (simp add: at_0_def disk_0_def time_defs)
qed

end
